theory Spec2Isabelle
  imports Main
begin

section \<open>JavaScript values used by the client\<close>

text \<open>
  The access token is typed \<open>string | null\<close> in \<open>authSlice.ts\<close>, but the value that
  \<open>apiClient.ts\<close> stores is \<open>refreshResponse.data.access_token\<close>, which is \<open>undefined\<close>
  when the body has no such field. The three cases are kept apart because the source
  tests the token for truthiness and prints it through a template literal.
\<close>

datatype jsval = Undefined | Null | Str string

text \<open>JavaScript truthiness: \<open>undefined\<close>, \<open>null\<close> and the empty string are falsy.\<close>

fun truthy :: "jsval \<Rightarrow> bool" where
  "truthy (Str s) = (s \<noteq> [])"
| "truthy Undefined = False"
| "truthy Null = False"

text \<open>What a template literal prints for a value.\<close>

fun template :: "jsval \<Rightarrow> string" where
  "template (Str s) = s"
| "template Undefined = ''undefined''"
| "template Null = ''null''"

text \<open>\<open>a || b\<close> where \<open>b\<close> is a string literal.\<close>

definition or_else :: "jsval \<Rightarrow> string \<Rightarrow> string" where
  "or_else v d = (if truthy v then template v else d)"


section \<open>The auth slice (\<open>store/authSlice.ts\<close>)\<close>

record user_rec =
  user_id :: string
  username :: string
  email :: string
  name :: "string option"

datatype auth_status = StIdle | StLoading | StSucceeded | StFailed

record auth_state =
  isAuthenticated :: bool
  user :: "user_rec option"
  accessToken :: jsval
  status :: auth_status
  error :: "string option"

definition initialState :: auth_state where
  "initialState = \<lparr> isAuthenticated = False, user = None, accessToken = Null,
                     status = StIdle, error = None \<rparr>"

text \<open>
  The actions the slice reacts to: its two plain reducers and the pending, fulfilled and
  rejected action of each of the four thunks. A rejected action carries the string given
  to \<open>rejectWithValue\<close>.
\<close>

datatype auth_action =
    ClearAuthError
  | SetAccessToken jsval
  | FetchUserPending
  | FetchUserFulfilled user_rec
  | FetchUserRejected string
  | LoginUserPending
  | LoginUserFulfilled jsval
  | LoginUserRejected string
  | RegisterUserPending
  | RegisterUserFulfilled
  | RegisterUserRejected string
  | LogoutUserPending
  | LogoutUserFulfilled
  | LogoutUserRejected string

fun authReducer :: "auth_state \<Rightarrow> auth_action \<Rightarrow> auth_state" where
  "authReducer st ClearAuthError = st\<lparr>error := None\<rparr>"
| "authReducer st (SetAccessToken t) = st\<lparr>accessToken := t\<rparr>"
| "authReducer st FetchUserPending = st\<lparr>status := StLoading, error := None\<rparr>"
| "authReducer st (FetchUserFulfilled u) =
     st\<lparr>status := StSucceeded, isAuthenticated := True, user := Some u, error := None\<rparr>"
| "authReducer st (FetchUserRejected p) =
     (let st' = st\<lparr>status := StFailed, isAuthenticated := False, user := None\<rparr>
      in if p \<noteq> ''Not authenticated'' then st'\<lparr>error := Some p\<rparr> else st')"
| "authReducer st LoginUserPending =
     st\<lparr>status := StLoading, accessToken := Null, error := None\<rparr>"
| "authReducer st (LoginUserFulfilled t) = st\<lparr>status := StSucceeded, accessToken := t\<rparr>"
| "authReducer st (LoginUserRejected p) =
     st\<lparr>status := StFailed, isAuthenticated := False, user := None, accessToken := Null,
        error := Some p\<rparr>"
| "authReducer st RegisterUserPending = st\<lparr>status := StLoading, error := None\<rparr>"
| "authReducer st RegisterUserFulfilled = st\<lparr>status := StSucceeded\<rparr>"
| "authReducer st (RegisterUserRejected p) = st\<lparr>status := StFailed, error := Some p\<rparr>"
| "authReducer st LogoutUserPending = st\<lparr>status := StLoading\<rparr>"
| "authReducer st LogoutUserFulfilled =
     st\<lparr>status := StIdle, isAuthenticated := False, user := None, accessToken := Null,
        error := None\<rparr>"
| "authReducer st (LogoutUserRejected p) =
     st\<lparr>status := StFailed, isAuthenticated := False, user := None, accessToken := Null,
        error := Some p\<rparr>"

definition selectAccessToken :: "auth_state \<Rightarrow> jsval" where
  "selectAccessToken st = accessToken st"

text \<open>
  How the \<open>fetch\<close> of \<open>/api/auth/logout\<close> can end inside the \<open>logoutUser\<close> thunk: the
  response is ok; it is not ok and its body parses, with \<open>errorData.detail\<close>; or something
  throws (the fetch itself, or \<open>response.json()\<close>), with \<open>error.message\<close>.
\<close>

datatype logout_response = LogoutOk | LogoutNotOk jsval | LogoutThrew jsval

text \<open>The action the thunk dispatches when its payload creator returns.\<close>

fun logoutUser_settled :: "logout_response \<Rightarrow> auth_action" where
  "logoutUser_settled LogoutOk = LogoutUserFulfilled"
| "logoutUser_settled (LogoutNotOk detail) = LogoutUserRejected (or_else detail ''Logout failed'')"
| "logoutUser_settled (LogoutThrew message) = LogoutUserRejected (or_else message ''Network error'')"


section \<open>The API client (\<open>apiClient.ts\<close>)\<close>

subsection \<open>Requests, errors and what the interceptors do to the outside\<close>

text \<open>
  A request configuration. \<open>retry\<close> is the source's \<open>_retry\<close> mark (absent reads as
  false). The interceptors are typed on \<open>InternalAxiosRequestConfig\<close>, whose \<open>headers\<close>
  field is mandatory, so the header object is always there and the source's tests
  \<open>config.headers\<close> and \<open>originalRequest.headers\<close> always succeed.
\<close>

record request_config =
  url :: string
  headers :: "string \<rightharpoonup> string"
  retry :: bool

text \<open>An \<open>AxiosError\<close>: \<open>response_status\<close> is \<open>error.response?.status\<close>, which is
  \<open>None\<close> when the exchange produced no response (a network failure).\<close>

record axios_error =
  config :: request_config
  response_status :: "nat option"

record http_response =
  resp_config :: request_config
  resp_status :: nat

text \<open>What a promise is rejected with: an \<open>AxiosError\<close>, or the \<open>TypeError\<close> thrown by
  \<open>refreshResponse.data.access_token\<close> when the body of the refresh response is \<open>null\<close>.\<close>

datatype reason = AxiosErr axios_error | TypeErr

text \<open>How the POST to \<open>/api/auth/refresh\<close> can settle.\<close>

datatype refresh_body = NoData | Data jsval

datatype refresh_outcome = RefreshOk refresh_body | RefreshFail axios_error

datatype verdict = Resolve jsval | Reject reason

datatype outcome = Fulfilled http_response | Rejected reason

text \<open>
  The observable actions of the client, in the order the source performs them:
  \<^item> \<open>RefreshPost\<close>: \<open>axios.post('/api/auth/refresh', {}, {})\<close>;
  \<^item> \<open>Dispatched a\<close>: the store reduces action \<open>a\<close>;
  \<^item> \<open>LogoutPost\<close>: the \<open>logoutUser\<close> thunk fetches \<open>/api/auth/logout\<close>;
  \<^item> \<open>Enqueued r\<close>: \<open>failedQueue.push\<close> for the caller of request \<open>r\<close>;
  \<^item> \<open>Settled r v\<close>: \<open>processQueue\<close> calls \<open>resolve\<close> or \<open>reject\<close> of that queue entry;
  \<^item> \<open>Sent r\<close>: \<open>apiClient(r)\<close>, the configuration as it leaves the request interceptor;
  \<^item> \<open>Returned r x\<close>: the response handler hands \<open>x\<close> to the caller of request \<open>r\<close>.
\<close>

datatype effect =
    RefreshPost
  | Dispatched auth_action
  | LogoutPost
  | Enqueued request_config
  | Settled request_config verdict
  | Sent request_config
  | Returned request_config outcome

text \<open>
  The state of the module: the Redux store, the two module variables \<open>isRefreshing\<close> and
  \<open>failedQueue\<close> (each queue entry is kept as the request its closures captured),
  the activations of the response handler that are suspended at
  \<open>await axios.post(...)\<close> (each kept as its \<open>originalRequest\<close>), and the number of
  \<open>logoutUser\<close> thunks whose fetch has not settled.
\<close>

record client_state =
  store :: auth_state
  isRefreshing :: bool
  failedQueue :: "request_config list"
  awaiting :: "request_config list"
  pendingLogouts :: nat

definition initial_state :: client_state where
  "initial_state = \<lparr> store = initialState, isRefreshing = False, failedQueue = [],
                      awaiting = [], pendingLogouts = 0 \<rparr>"


subsection \<open>The request interceptor\<close>

definition bearer :: "jsval \<Rightarrow> string" where
  "bearer token = ''Bearer '' @ template token"

definition set_authorization :: "jsval \<Rightarrow> request_config \<Rightarrow> request_config" where
  "set_authorization token c = c\<lparr>headers := (headers c)(''Authorization'' \<mapsto> bearer token)\<rparr>"

definition request_interceptor :: "auth_state \<Rightarrow> request_config \<Rightarrow> request_config" where
  "request_interceptor st c =
     (let token = selectAccessToken st
      in if truthy token then set_authorization token c else c)"

text \<open>\<open>apiClient(c)\<close>: the request passes the request interceptor and is sent.\<close>

definition apiClient :: "client_state \<Rightarrow> request_config \<Rightarrow> effect list" where
  "apiClient s c = [Sent (request_interceptor (store s) c)]"


subsection \<open>The store as the client uses it\<close>

text \<open>
  Modelled from the spec: the store module \<open>store/store.ts\<close> that \<open>apiClient.ts\<close> imports.
  The spec's credential store is a pure state holder; here it is the Redux store whose
  state is the auth state above: \<open>store.getState()\<close> reads it (\<open>store s\<close>) and
  \<open>store.dispatch(a)\<close> replaces it by what the slice's reducer makes of it and \<open>a\<close>.
\<close>

definition dispatch :: "auth_action \<Rightarrow> client_state \<Rightarrow> effect list \<times> client_state" where
  "dispatch a s = ([Dispatched a], s\<lparr>store := authReducer (store s) a\<rparr>)"

text \<open>\<open>store.dispatch(logoutUser())\<close>: the thunk dispatches its pending action and
  starts the fetch, both before it first suspends.\<close>

definition dispatch_logoutUser :: "client_state \<Rightarrow> effect list \<times> client_state" where
  "dispatch_logoutUser s =
     (let (fx, s') = dispatch LogoutUserPending s
      in (fx @ [LogoutPost], s'\<lparr>pendingLogouts := Suc (pendingLogouts s')\<rparr>))"


subsection \<open>The response interceptor\<close>

text \<open>\<open>processQueue(error, token = null)\<close>: the default applies when \<open>token\<close> is
  \<open>undefined\<close>.\<close>

definition processQueue ::
  "reason option \<Rightarrow> jsval \<Rightarrow> client_state \<Rightarrow> effect list \<times> client_state" where
  "processQueue err token0 s =
     (let token = (if token0 = Undefined then Null else token0)
      in (map (\<lambda>prom. case err of Some e \<Rightarrow> Settled prom (Reject e)
                                 | None \<Rightarrow> Settled prom (Resolve token))
              (failedQueue s),
          s\<lparr>failedQueue := []\<rparr>))"

text \<open>The \<open>.then(...).catch(...)\<close> chain hung on a queue entry, run once the entry is
  settled.\<close>

fun queued_continuation :: "client_state \<Rightarrow> request_config \<Rightarrow> verdict \<Rightarrow> effect list" where
  "queued_continuation s originalRequest (Resolve token) =
     apiClient s (set_authorization token originalRequest)"
| "queued_continuation s originalRequest (Reject err) =
     [Returned originalRequest (Rejected err)]"

fun continuations :: "client_state \<Rightarrow> effect list \<Rightarrow> effect list" where
  "continuations s [] = []"
| "continuations s (Settled r v # fx) = queued_continuation s r v @ continuations s fx"
| "continuations s (x # fx) = continuations s fx"

text \<open>The response handler for a fulfilled response.\<close>

definition on_fulfilled :: "http_response \<Rightarrow> client_state \<Rightarrow> effect list \<times> client_state" where
  "on_fulfilled response s = ([Returned (resp_config response) (Fulfilled response)], s)"

text \<open>The response handler for an error, up to its first suspension.\<close>

definition on_rejected :: "axios_error \<Rightarrow> client_state \<Rightarrow> effect list \<times> client_state" where
  "on_rejected err s =
     (let originalRequest = config err
      in if response_status err = Some 401 \<and> \<not> retry originalRequest then
           if isRefreshing s then
             ([Enqueued originalRequest], s\<lparr>failedQueue := failedQueue s @ [originalRequest]\<rparr>)
           else
             ([RefreshPost],
              s\<lparr>isRefreshing := True,
                awaiting := awaiting s @ [originalRequest\<lparr>retry := True\<rparr>]\<rparr>)
         else ([Returned originalRequest (Rejected (AxiosErr err))], s))"

text \<open>
  The rest of the handler, resumed when the refresh call settles: the \<open>try\<close> block after
  the \<open>await\<close>, the \<open>catch\<close> block, and \<open>finally\<close>. The continuations of the queue
  entries are microtasks: they run after \<open>finally\<close>, in the order the entries were
  settled, before any other event.
\<close>

definition on_refresh_settled ::
  "request_config \<Rightarrow> refresh_outcome \<Rightarrow> client_state \<Rightarrow> effect list \<times> client_state" where
  "on_refresh_settled originalRequest res s =
     (case res of
        RefreshOk (Data newAccessToken) \<Rightarrow>
          (let (fx1, s1) = dispatch (SetAccessToken newAccessToken) s;
               originalRequest' = set_authorization newAccessToken originalRequest;
               (fx2, s2) = processQueue None newAccessToken s1;
               fx3 = apiClient s2 originalRequest';
               s3 = s2\<lparr>isRefreshing := False\<rparr>
           in (fx1 @ fx2 @ fx3 @ continuations s3 fx2, s3))
      | _ \<Rightarrow>
          (let refreshError = (case res of RefreshFail e \<Rightarrow> AxiosErr e | _ \<Rightarrow> TypeErr);
               (fx1, s1) = dispatch_logoutUser s;
               (fx2, s2) = processQueue (Some refreshError) Null s1;
               fx3 = [Returned originalRequest (Rejected refreshError)];
               s3 = s2\<lparr>isRefreshing := False\<rparr>
           in (fx1 @ fx2 @ fx3 @ continuations s3 fx2, s3)))"


subsection \<open>Events and runs\<close>

text \<open>
  What can happen to the client: a response or an error reaches the response
  interceptor; the refresh call of the \<open>n\<close>-th suspended handler settles; the fetch of a
  logout thunk settles; another part of the application dispatches an action. An event
  that cannot happen in a state (no such suspended handler, no pending logout) leaves
  it as it is.
\<close>

datatype event =
    ResponseOk http_response
  | ResponseError axios_error
  | RefreshSettled nat refresh_outcome
  | LogoutSettled logout_response
  | AppDispatch auth_action

fun step :: "event \<Rightarrow> client_state \<Rightarrow> effect list \<times> client_state" where
  "step (ResponseOk response) s = on_fulfilled response s"
| "step (ResponseError err) s = on_rejected err s"
| "step (RefreshSettled n res) s =
     (if n < length (awaiting s)
      then on_refresh_settled (awaiting s ! n) res
             (s\<lparr>awaiting := take n (awaiting s) @ drop (Suc n) (awaiting s)\<rparr>)
      else ([], s))"
| "step (LogoutSettled res) s =
     (if 0 < pendingLogouts s
      then dispatch (logoutUser_settled res) (s\<lparr>pendingLogouts := pendingLogouts s - 1\<rparr>)
      else ([], s))"
| "step (AppDispatch a) s = dispatch a s"

fun run :: "event list \<Rightarrow> client_state \<Rightarrow> effect list \<times> client_state" where
  "run [] s = ([], s)"
| "run (e # es) s =
     (let (fx, s') = step e s; (fx', s'') = run es s' in (fx @ fx', s''))"


subsection \<open>Reading a list of effects\<close>

fun refresh_posts :: "effect list \<Rightarrow> nat" where
  "refresh_posts [] = 0"
| "refresh_posts (RefreshPost # fx) = Suc (refresh_posts fx)"
| "refresh_posts (x # fx) = refresh_posts fx"

fun logout_posts :: "effect list \<Rightarrow> nat" where
  "logout_posts [] = 0"
| "logout_posts (LogoutPost # fx) = Suc (logout_posts fx)"
| "logout_posts (x # fx) = logout_posts fx"

fun dispatched :: "effect list \<Rightarrow> auth_action list" where
  "dispatched [] = []"
| "dispatched (Dispatched a # fx) = a # dispatched fx"
| "dispatched (x # fx) = dispatched fx"

fun enqueued :: "effect list \<Rightarrow> request_config list" where
  "enqueued [] = []"
| "enqueued (Enqueued r # fx) = r # enqueued fx"
| "enqueued (x # fx) = enqueued fx"

fun settlements :: "effect list \<Rightarrow> (request_config \<times> verdict) list" where
  "settlements [] = []"
| "settlements (Settled r v # fx) = (r, v) # settlements fx"
| "settlements (x # fx) = settlements fx"

fun sent :: "effect list \<Rightarrow> request_config list" where
  "sent [] = []"
| "sent (Sent r # fx) = r # sent fx"
| "sent (x # fx) = sent fx"

fun returned :: "effect list \<Rightarrow> (request_config \<times> outcome) list" where
  "returned [] = []"
| "returned (Returned r x # fx) = (r, x) # returned fx"
| "returned (x # fx) = returned fx"

fun is_refresh_settled :: "event \<Rightarrow> bool" where
  "is_refresh_settled (RefreshSettled n res) = True"
| "is_refresh_settled ev = False"


subsection \<open>The coordinator's invariant\<close>

text \<open>While \<open>isRefreshing\<close> is set exactly one handler is suspended at the refresh call;
  while it is not, none is and the queue is empty.\<close>

definition coordinator_inv :: "client_state \<Rightarrow> bool" where
  "coordinator_inv s =
     (if isRefreshing s then length (awaiting s) = 1
      else awaiting s = [] \<and> failedQueue s = [])"


subsection \<open>Concrete requests for the closed theorems\<close>

definition req_a :: request_config where
  "req_a = \<lparr> url = ''/memories'', headers = Map.empty, retry = False \<rparr>"

definition req_b :: request_config where
  "req_b = \<lparr> url = ''/apps'', headers = [''Content-Type'' \<mapsto> ''application/json''],
              retry = False \<rparr>"

definition req_c :: request_config where
  "req_c = \<lparr> url = ''/stats'', headers = Map.empty, retry = False \<rparr>"

definition unauthorized :: "request_config \<Rightarrow> axios_error" where
  "unauthorized r = \<lparr> config = r, response_status = Some 401 \<rparr>"

definition refreshing_state :: client_state where
  "refreshing_state =
     \<lparr> store = initialState\<lparr>accessToken := Str ''T1''\<rparr>, isRefreshing = True,
       failedQueue = [req_b, req_c], awaiting = [req_a\<lparr>retry := True\<rparr>],
       pendingLogouts = 0 \<rparr>"


section \<open>Properties\<close>

subsection \<open>Effects of concatenated lists\<close>

lemma refresh_posts_append [simp]:
  "refresh_posts (fx @ fx') = refresh_posts fx + refresh_posts fx'"
  by (induction fx rule: refresh_posts.induct) simp_all

lemma logout_posts_append [simp]:
  "logout_posts (fx @ fx') = logout_posts fx + logout_posts fx'"
  by (induction fx rule: logout_posts.induct) simp_all

lemma dispatched_append [simp]: "dispatched (fx @ fx') = dispatched fx @ dispatched fx'"
  by (induction fx rule: dispatched.induct) simp_all

lemma enqueued_append [simp]: "enqueued (fx @ fx') = enqueued fx @ enqueued fx'"
  by (induction fx rule: enqueued.induct) simp_all

lemma settlements_append [simp]: "settlements (fx @ fx') = settlements fx @ settlements fx'"
  by (induction fx rule: settlements.induct) simp_all

lemma sent_append [simp]: "sent (fx @ fx') = sent fx @ sent fx'"
  by (induction fx rule: sent.induct) simp_all

lemma returned_append [simp]: "returned (fx @ fx') = returned fx @ returned fx'"
  by (induction fx rule: returned.induct) simp_all


subsection \<open>The auth slice\<close>

lemma logout_settled_clears:
  "accessToken (authReducer st (logoutUser_settled res)) = Null \<and>
   user (authReducer st (logoutUser_settled res)) = None \<and>
   \<not> isAuthenticated (authReducer st (logoutUser_settled res))"
  by (cases res) simp_all

text \<open>
  Claim C10. Once the client has dispatched \<open>logoutUser()\<close>, the settlement of the logout
  call leaves the auth state cleared, whatever the call did: the access token is
  \<open>null\<close>, the user is \<open>null\<close> and \<open>isAuthenticated\<close> is false, after the fulfilled action
  and after the rejected action alike.
\<close>

theorem logout_clears_auth_state:
  "accessToken (store (snd (step (LogoutSettled res) (snd (dispatch_logoutUser s))))) = Null \<and>
   user (store (snd (step (LogoutSettled res) (snd (dispatch_logoutUser s))))) = None \<and>
   \<not> isAuthenticated (store (snd (step (LogoutSettled res) (snd (dispatch_logoutUser s)))))"
  using logout_settled_clears [of "authReducer (store s) LogoutUserPending" res]
  by (simp add: dispatch_logoutUser_def dispatch_def)


subsection \<open>The request interceptor\<close>

lemma request_interceptor_truthy:
  "truthy (accessToken st) \<Longrightarrow>
   request_interceptor st c =
     c\<lparr>headers := (headers c)(''Authorization'' \<mapsto> ''Bearer '' @ template (accessToken st))\<rparr>"
  by (simp add: request_interceptor_def selectAccessToken_def set_authorization_def bearer_def)

lemma request_interceptor_falsy:
  "\<not> truthy (accessToken st) \<Longrightarrow> request_interceptor st c = c"
  by (simp add: request_interceptor_def selectAccessToken_def)

text \<open>
  Claim C8. A request that leaves through \<open>apiClient\<close> while the store holds a token
  (a non-empty string \<open>t\<close>) is sent with the header \<open>Authorization: Bearer t\<close> and is
  otherwise unchanged; while the store holds none (\<open>null\<close>, and likewise \<open>undefined\<close> or the
  empty string, which the source's test of the token treats alike) it is sent exactly as
  it was given, and nothing is raised. In particular, once a failed renewal has
  dispatched the logout and the logout call has settled, a request that had no
  \<open>Authorization\<close> header is sent without one.
\<close>

theorem request_authorization:
  "(accessToken (store s) = Str t \<and> t \<noteq> [] \<longrightarrow>
      apiClient s c = [Sent (c\<lparr>headers := (headers c)(''Authorization'' \<mapsto> ''Bearer '' @ t)\<rparr>)]) \<and>
   (\<not> truthy (accessToken (store s)) \<longrightarrow> apiClient s c = [Sent c]) \<and>
   (n < length (awaiting s) \<and> headers c ''Authorization'' = None \<longrightarrow>
      (let s1 = snd (step (RefreshSettled n (RefreshFail e)) s);
           s2 = snd (step (LogoutSettled res) s1)
       in map (\<lambda>r. headers r ''Authorization'') (sent (apiClient s2 c)) = [None]))"
proof -
  have cleared: "accessToken (authReducer st (logoutUser_settled res)) = Null" for st
    using logout_settled_clears [of st res] by simp
  have "accessToken (store s) = Str t \<and> t \<noteq> [] \<longrightarrow>
      apiClient s c = [Sent (c\<lparr>headers := (headers c)(''Authorization'' \<mapsto> ''Bearer '' @ t)\<rparr>)]"
    by (simp add: apiClient_def request_interceptor_truthy)
  moreover have "\<not> truthy (accessToken (store s)) \<longrightarrow> apiClient s c = [Sent c]"
    by (simp add: apiClient_def request_interceptor_falsy)
  moreover have "n < length (awaiting s) \<and> headers c ''Authorization'' = None \<longrightarrow>
      (let s1 = snd (step (RefreshSettled n (RefreshFail e)) s);
           s2 = snd (step (LogoutSettled res) s1)
       in map (\<lambda>r. headers r ''Authorization'') (sent (apiClient s2 c)) = [None])"
    by (simp add: on_refresh_settled_def dispatch_logoutUser_def dispatch_def processQueue_def
        Let_def apiClient_def request_interceptor_falsy cleared)
  ultimately show ?thesis by blast
qed

theorem request_authorization_witness:
  "accessToken (store refreshing_state) = Str ''T1'' \<and> ''T1'' \<noteq> [] \<and>
   apiClient refreshing_state req_b =
     [Sent \<lparr> url = ''/apps'',
             headers = [''Content-Type'' \<mapsto> ''application/json'', ''Authorization'' \<mapsto> ''Bearer T1''],
             retry = False \<rparr>] \<and>
   \<not> truthy (accessToken (store initial_state)) \<and>
   apiClient initial_state req_b = [Sent req_b] \<and>
   0 < length (awaiting refreshing_state) \<and> headers req_b ''Authorization'' = None \<and>
   map (\<lambda>r. headers r ''Authorization'')
     (sent (apiClient
        (snd (step (LogoutSettled LogoutOk)
           (snd (step (RefreshSettled 0 (RefreshFail (unauthorized req_a))) refreshing_state))))
        req_b)) = [None]"
  using request_authorization [of refreshing_state "''T1''" req_b 0 "unauthorized req_a" LogoutOk]
    request_authorization [of initial_state "''''" req_b 0 "unauthorized req_a" LogoutOk]
  by (simp add: refreshing_state_def initial_state_def initialState_def req_a_def req_b_def req_c_def
      unauthorized_def Let_def)


subsection \<open>Errors that are not handled by a renewal\<close>

text \<open>
  Claim C6. An error whose response status is not 401, which includes an error with no
  response at all, is handed back to the caller as it came: the handler rejects with the
  same error, sends nothing again, starts no renewal and leaves the flag, the queue and
  the store untouched.
\<close>

theorem pass_through:
  assumes "response_status err \<noteq> Some 401"
  shows "step (ResponseError err) s = ([Returned (config err) (Rejected (AxiosErr err))], s)"
  using assms by (simp add: on_rejected_def)

theorem pass_through_witness:
  "response_status \<lparr> config = req_a, response_status = Some 500 \<rparr> \<noteq> Some 401 \<and>
   step (ResponseError \<lparr> config = req_a, response_status = Some 500 \<rparr>) refreshing_state =
     ([Returned req_a (Rejected (AxiosErr \<lparr> config = req_a, response_status = Some 500 \<rparr>))],
      refreshing_state) \<and>
   response_status \<lparr> config = req_a, response_status = None \<rparr> \<noteq> Some 401 \<and>
   step (ResponseError \<lparr> config = req_a, response_status = None \<rparr>) initial_state =
     ([Returned req_a (Rejected (AxiosErr \<lparr> config = req_a, response_status = None \<rparr>))],
      initial_state)"
  using pass_through [of "\<lparr> config = req_a, response_status = Some 500 \<rparr>" refreshing_state]
    pass_through [of "\<lparr> config = req_a, response_status = None \<rparr>" initial_state]
  by simp


text \<open>
  Claim C5, as the code has it. A 401 on a request that already carries the retry mark
  starts no renewal and is handed back to the caller as a rejection with the very same
  error; the session is not invalidated on this path: nothing is dispatched to the store,
  no logout call is made, and the whole state stays as it was.
\<close>

theorem after_retry_is_rejected_unchanged:
  assumes "response_status err = Some 401" and "retry (config err)"
  shows "step (ResponseError err) s = ([Returned (config err) (Rejected (AxiosErr err))], s)"
  using assms by (simp add: on_rejected_def)

theorem after_retry_is_rejected_unchanged_witness:
  "response_status (unauthorized (req_a\<lparr>retry := True\<rparr>)) = Some 401 \<and>
   retry (config (unauthorized (req_a\<lparr>retry := True\<rparr>))) \<and>
   step (ResponseError (unauthorized (req_a\<lparr>retry := True\<rparr>))) initial_state =
     ([Returned (req_a\<lparr>retry := True\<rparr>) (Rejected (AxiosErr (unauthorized (req_a\<lparr>retry := True\<rparr>))))],
      initial_state)"
  using after_retry_is_rejected_unchanged [of "unauthorized (req_a\<lparr>retry := True\<rparr>)" initial_state]
  by (simp add: unauthorized_def)


text \<open>
  Claim C5 as stated, with the session invalidated on this path, fails on a marked request
  that gets a 401 in the initial state: the step makes no logout call, dispatches
  nothing to the store and leaves no logout pending.
\<close>

theorem after_retry_no_invalidation:
  "logout_posts (fst (step (ResponseError (unauthorized (req_a\<lparr>retry := True\<rparr>))) initial_state)) = 0 \<and>
   dispatched (fst (step (ResponseError (unauthorized (req_a\<lparr>retry := True\<rparr>))) initial_state)) = [] \<and>
   pendingLogouts (snd (step (ResponseError (unauthorized (req_a\<lparr>retry := True\<rparr>))) initial_state)) = 0"
  by (simp add: on_rejected_def unauthorized_def initial_state_def Let_def)


subsection \<open>Flushing the queue\<close>

lemma continuations_resolved:
  "continuations s (map (\<lambda>r. Settled r (Resolve token)) q) =
   map (\<lambda>r. Sent (request_interceptor (store s) (set_authorization token r))) q"
  by (induction q) (simp_all add: apiClient_def)

lemma continuations_rejected:
  "continuations s (map (\<lambda>r. Settled r (Reject err)) q) =
   map (\<lambda>r. Returned r (Rejected err)) q"
  by (induction q) simp_all

lemma settlements_map [simp]:
  "settlements (map (\<lambda>x. Settled (f x) v) q) = map (\<lambda>x. (f x, v)) q"
  by (induction q) simp_all

lemma sent_map [simp]: "sent (map (\<lambda>x. Sent (f x)) q) = map f q"
  by (induction q) simp_all

lemma returned_map [simp]:
  "returned (map (\<lambda>x. Returned (f x) y) q) = map (\<lambda>x. (f x, y)) q"
  by (induction q) simp_all

lemma enqueued_map [simp]: "enqueued (map (\<lambda>x. Enqueued (f x)) q) = map f q"
  by (induction q) simp_all

lemma other_of_settled [simp]:
  "sent (map (\<lambda>x. Settled (f x) v) q) = []"
  "returned (map (\<lambda>x. Settled (f x) v) q) = []"
  "enqueued (map (\<lambda>x. Settled (f x) v) q) = []"
  "dispatched (map (\<lambda>x. Settled (f x) v) q) = []"
  "refresh_posts (map (\<lambda>x. Settled (f x) v) q) = 0"
  "logout_posts (map (\<lambda>x. Settled (f x) v) q) = 0"
  by (induction q) simp_all

lemma other_of_sent [simp]:
  "settlements (map (\<lambda>x. Sent (f x)) q) = []"
  "returned (map (\<lambda>x. Sent (f x)) q) = []"
  "enqueued (map (\<lambda>x. Sent (f x)) q) = []"
  "dispatched (map (\<lambda>x. Sent (f x)) q) = []"
  "refresh_posts (map (\<lambda>x. Sent (f x)) q) = 0"
  "logout_posts (map (\<lambda>x. Sent (f x)) q) = 0"
  by (induction q) simp_all

lemma other_of_returned [simp]:
  "settlements (map (\<lambda>x. Returned (f x) y) q) = []"
  "sent (map (\<lambda>x. Returned (f x) y) q) = []"
  "enqueued (map (\<lambda>x. Returned (f x) y) q) = []"
  "dispatched (map (\<lambda>x. Returned (f x) y) q) = []"
  "refresh_posts (map (\<lambda>x. Returned (f x) y) q) = 0"
  "logout_posts (map (\<lambda>x. Returned (f x) y) q) = 0"
  by (induction q) simp_all

lemma other_of_enqueued [simp]:
  "settlements (map (\<lambda>x. Enqueued (f x)) q) = []"
  "sent (map (\<lambda>x. Enqueued (f x)) q) = []"
  "returned (map (\<lambda>x. Enqueued (f x)) q) = []"
  "dispatched (map (\<lambda>x. Enqueued (f x)) q) = []"
  "refresh_posts (map (\<lambda>x. Enqueued (f x)) q) = 0"
  "logout_posts (map (\<lambda>x. Enqueued (f x)) q) = 0"
  by (induction q) simp_all

lemma refresh_success_step:
  assumes "n < length (awaiting s)"
  shows "step (RefreshSettled n (RefreshOk (Data token))) s =
    (let token' = (if token = Undefined then Null else token);
         s' = s\<lparr>awaiting := take n (awaiting s) @ drop (Suc n) (awaiting s),
                store := authReducer (store s) (SetAccessToken token),
                failedQueue := [], isRefreshing := False\<rparr>
     in (Dispatched (SetAccessToken token)
           # map (\<lambda>r. Settled r (Resolve token')) (failedQueue s)
           @ Sent (request_interceptor (store s') (set_authorization token (awaiting s ! n)))
           # map (\<lambda>r. Sent (request_interceptor (store s') (set_authorization token' r)))
               (failedQueue s),
         s'))"
  using assms
  by (simp add: on_refresh_settled_def dispatch_def processQueue_def apiClient_def Let_def
      continuations_resolved)

lemma refresh_failure_step:
  assumes "n < length (awaiting s)" and "res = RefreshFail e \<and> err = AxiosErr e \<or> res = RefreshOk NoData \<and> err = TypeErr"
  shows "step (RefreshSettled n res) s =
    (let s' = s\<lparr>awaiting := take n (awaiting s) @ drop (Suc n) (awaiting s),
                store := authReducer (store s) LogoutUserPending,
                pendingLogouts := Suc (pendingLogouts s),
                failedQueue := [], isRefreshing := False\<rparr>
     in (Dispatched LogoutUserPending # LogoutPost
           # map (\<lambda>r. Settled r (Reject err)) (failedQueue s)
           @ Returned (awaiting s ! n) (Rejected err)
           # map (\<lambda>r. Returned r (Rejected err)) (failedQueue s),
         s'))"
  using assms
  by (auto simp add: on_refresh_settled_def dispatch_logoutUser_def dispatch_def processQueue_def
      Let_def continuations_rejected)

lemma resend_with_new_token:
  "accessToken st = Str t \<Longrightarrow>
   request_interceptor st (set_authorization (Str t) r) =
     r\<lparr>headers := (headers r)(''Authorization'' \<mapsto> ''Bearer '' @ t)\<rparr>"
  by (simp add: request_interceptor_def selectAccessToken_def set_authorization_def bearer_def)


subsection \<open>A renewal that succeeds\<close>

text \<open>
  Claim C7. When the refresh call of a suspended handler settles with a body whose
  \<open>access_token\<close> is the string \<open>T2\<close>: the store holds \<open>T2\<close>, \<open>isRefreshing\<close> is false again
  and the queue is empty; the requests sent are exactly the initiator's request followed
  by the queued requests, each once, each with its \<open>Authorization\<close> header set to
  \<open>Bearer T2\<close> and nothing else changed; no caller is rejected and no further refresh or
  logout call is made.
\<close>

theorem renewal_success:
  assumes "n < length (awaiting s)"
  shows "let (fx, s') = step (RefreshSettled n (RefreshOk (Data (Str T2)))) s
         in accessToken (store s') = Str T2 \<and>
            \<not> isRefreshing s' \<and>
            failedQueue s' = [] \<and>
            sent fx = map (\<lambda>r. r\<lparr>headers := (headers r)(''Authorization'' \<mapsto> ''Bearer '' @ T2)\<rparr>)
                        (awaiting s ! n # failedQueue s) \<and>
            returned fx = [] \<and>
            refresh_posts fx = 0 \<and>
            logout_posts fx = 0"
  using assms
  by (simp add: refresh_success_step Let_def resend_with_new_token del: step.simps)

theorem renewal_success_witness:
  "0 < length (awaiting refreshing_state) \<and>
   (let (fx, s') = step (RefreshSettled 0 (RefreshOk (Data (Str ''T2'')))) refreshing_state
    in accessToken (store s') = Str ''T2'' \<and> \<not> isRefreshing s' \<and> failedQueue s' = [] \<and>
       sent fx =
         [\<lparr> url = ''/memories'', headers = [''Authorization'' \<mapsto> ''Bearer T2''], retry = True \<rparr>,
          \<lparr> url = ''/apps'',
            headers = [''Content-Type'' \<mapsto> ''application/json'', ''Authorization'' \<mapsto> ''Bearer T2''],
            retry = False \<rparr>,
          \<lparr> url = ''/stats'', headers = [''Authorization'' \<mapsto> ''Bearer T2''], retry = False \<rparr>] \<and>
       returned fx = [] \<and> refresh_posts fx = 0 \<and> logout_posts fx = 0)"
  using renewal_success [of 0 refreshing_state "''T2''"]
  by (simp add: refreshing_state_def req_a_def req_b_def req_c_def)


subsection \<open>A renewal that fails\<close>

text \<open>
  Claim C4, as the code has it. When the refresh call of a suspended handler fails with
  error \<open>e\<close>: \<open>isRefreshing\<close> is false again and the queue is empty; every queue entry is
  rejected with \<open>e\<close>, and the initiator's caller and every queued caller receive \<open>e\<close> as
  a rejection, none is resent; the logout is dispatched once and its call made once,
  however many callers were queued. The failure handling itself does not clear the
  credential: the store it leaves differs from the one before only in \<open>status\<close>, which
  is loading, so the access token, the user and \<open>isAuthenticated\<close> are as they were.
  They are cleared when that one logout call settles, whatever its result.
\<close>

theorem renewal_failure:
  assumes "n < length (awaiting s)"
  shows "let (fx, s') = step (RefreshSettled n (RefreshFail e)) s
         in \<not> isRefreshing s' \<and>
            failedQueue s' = [] \<and>
            settlements fx = map (\<lambda>r. (r, Reject (AxiosErr e))) (failedQueue s) \<and>
            returned fx = map (\<lambda>r. (r, Rejected (AxiosErr e))) (awaiting s ! n # failedQueue s) \<and>
            sent fx = [] \<and>
            refresh_posts fx = 0 \<and>
            dispatched fx = [LogoutUserPending] \<and>
            logout_posts fx = 1 \<and>
            pendingLogouts s' = Suc (pendingLogouts s) \<and>
            store s' = (store s)\<lparr>status := StLoading\<rparr> \<and>
            accessToken (store s') = accessToken (store s) \<and>
            user (store s') = user (store s) \<and>
            isAuthenticated (store s') = isAuthenticated (store s) \<and>
            accessToken (store (snd (step (LogoutSettled res) s'))) = Null \<and>
            user (store (snd (step (LogoutSettled res) s'))) = None \<and>
            \<not> isAuthenticated (store (snd (step (LogoutSettled res) s')))"
proof -
  have fails: "step (RefreshSettled n (RefreshFail e)) s =
    (Dispatched LogoutUserPending # LogoutPost
       # map (\<lambda>r. Settled r (Reject (AxiosErr e))) (failedQueue s)
       @ Returned (awaiting s ! n) (Rejected (AxiosErr e))
       # map (\<lambda>r. Returned r (Rejected (AxiosErr e))) (failedQueue s),
     s\<lparr>awaiting := take n (awaiting s) @ drop (Suc n) (awaiting s),
       store := authReducer (store s) LogoutUserPending,
       pendingLogouts := Suc (pendingLogouts s),
       failedQueue := [], isRefreshing := False\<rparr>)"
    using refresh_failure_step [OF assms, of "RefreshFail e" e "AxiosErr e"] by (simp add: Let_def)
  show ?thesis
    unfolding fails
    using logout_settled_clears [of "authReducer (store s) LogoutUserPending" res]
    by (simp add: dispatch_def)
qed

theorem renewal_failure_witness:
  "0 < length (awaiting refreshing_state) \<and>
   (let (fx, s') = step (RefreshSettled 0 (RefreshFail \<lparr> config = req_c, response_status = Some 403 \<rparr>))
                     refreshing_state
    in \<not> isRefreshing s' \<and> failedQueue s' = [] \<and>
       settlements fx =
         [(req_b, Reject (AxiosErr \<lparr> config = req_c, response_status = Some 403 \<rparr>)),
          (req_c, Reject (AxiosErr \<lparr> config = req_c, response_status = Some 403 \<rparr>))] \<and>
       returned fx =
         [(req_a\<lparr>retry := True\<rparr>, Rejected (AxiosErr \<lparr> config = req_c, response_status = Some 403 \<rparr>)),
          (req_b, Rejected (AxiosErr \<lparr> config = req_c, response_status = Some 403 \<rparr>)),
          (req_c, Rejected (AxiosErr \<lparr> config = req_c, response_status = Some 403 \<rparr>))] \<and>
       sent fx = [] \<and> refresh_posts fx = 0 \<and> dispatched fx = [LogoutUserPending] \<and>
       logout_posts fx = 1 \<and> pendingLogouts s' = 1 \<and>
       accessToken (store s') = Str ''T1'' \<and> status (store s') = StLoading \<and>
       accessToken (store (snd (step (LogoutSettled LogoutOk) s'))) = Null)"
  using renewal_failure [of 0 refreshing_state "\<lparr> config = req_c, response_status = Some 403 \<rparr>" LogoutOk]
  by (simp add: refreshing_state_def on_refresh_settled_def dispatch_logoutUser_def dispatch_def
      processQueue_def Let_def)

text \<open>
  Claim C4 as stated, with the credential cleared by the failure of the renewal, fails in
  a state that holds token \<open>T1\<close> with two callers queued: after the refresh call has
  failed with status 403 the store still holds \<open>T1\<close>, and a request sent at that moment
  still carries \<open>Authorization: Bearer T1\<close>.
\<close>

theorem renewal_failure_keeps_credential:
  "accessToken (store (snd (step
      (RefreshSettled 0 (RefreshFail \<lparr> config = req_c, response_status = Some 403 \<rparr>))
      refreshing_state))) = Str ''T1'' \<and>
   accessToken (store (snd (step
      (RefreshSettled 0 (RefreshFail \<lparr> config = req_c, response_status = Some 403 \<rparr>))
      refreshing_state))) \<noteq> Null \<and>
   map (\<lambda>r. headers r ''Authorization'')
     (sent (apiClient
        (snd (step (RefreshSettled 0 (RefreshFail \<lparr> config = req_c, response_status = Some 403 \<rparr>))
                refreshing_state))
        req_a)) = [Some ''Bearer T1'']"
  by (simp add: refreshing_state_def initialState_def req_a_def on_refresh_settled_def
      dispatch_logoutUser_def dispatch_def processQueue_def apiClient_def request_interceptor_def
      selectAccessToken_def set_authorization_def bearer_def Let_def)


subsection \<open>Runs\<close>

lemma enqueue_while_refreshing:
  assumes "isRefreshing s" and "response_status err = Some 401" and "\<not> retry (config err)"
  shows "step (ResponseError err) s =
           ([Enqueued (config err)], s\<lparr>failedQueue := failedQueue s @ [config err]\<rparr>)"
  using assms by (simp add: on_rejected_def Let_def)

lemma start_renewal_when_idle:
  assumes "\<not> isRefreshing s" and "response_status err = Some 401" and "\<not> retry (config err)"
  shows "step (ResponseError err) s =
           ([RefreshPost],
            s\<lparr>isRefreshing := True, awaiting := awaiting s @ [(config err)\<lparr>retry := True\<rparr>]\<rparr>)"
  using assms by (simp add: on_rejected_def Let_def)

lemma burst_while_refreshing:
  assumes "isRefreshing s"
    and "\<forall>err\<in>set errs. response_status err = Some 401 \<and> \<not> retry (config err)"
  shows "run (map ResponseError errs) s =
           (map (\<lambda>err. Enqueued (config err)) errs,
            s\<lparr>failedQueue := failedQueue s @ map config errs\<rparr>)"
  using assms
proof (induction errs arbitrary: s)
  case Nil
  then show ?case by simp
next
  case (Cons err errs)
  have first: "step (ResponseError err) s =
      ([Enqueued (config err)], s\<lparr>failedQueue := failedQueue s @ [config err]\<rparr>)"
    using Cons.prems by (simp add: enqueue_while_refreshing del: step.simps)
  have rest: "run (map ResponseError errs) (s\<lparr>failedQueue := failedQueue s @ [config err]\<rparr>) =
      (map (\<lambda>err. Enqueued (config err)) errs,
       s\<lparr>failedQueue := (failedQueue s @ [config err]) @ map config errs\<rparr>)"
    using Cons.IH [of "s\<lparr>failedQueue := failedQueue s @ [config err]\<rparr>"] Cons.prems by simp
  show ?case
    by (simp add: first rest del: step.simps)
qed

lemma step_while_in_flight:
  assumes "isRefreshing s" and "\<not> is_refresh_settled ev"
  shows "refresh_posts (fst (step ev s)) = 0 \<and> isRefreshing (snd (step ev s)) \<and>
         awaiting (snd (step ev s)) = awaiting s"
  using assms
  by (cases ev) (simp_all add: on_fulfilled_def on_rejected_def dispatch_def Let_def)

lemma run_while_in_flight:
  assumes "isRefreshing s" and "\<forall>ev\<in>set evs. \<not> is_refresh_settled ev"
  shows "refresh_posts (fst (run evs s)) = 0 \<and> isRefreshing (snd (run evs s)) \<and>
         awaiting (snd (run evs s)) = awaiting s"
  using assms
proof (induction evs arbitrary: s)
  case Nil
  then show ?case by simp
next
  case (Cons ev evs)
  have one: "refresh_posts (fst (step ev s)) = 0 \<and> isRefreshing (snd (step ev s)) \<and>
         awaiting (snd (step ev s)) = awaiting s"
    using Cons.prems by (simp add: step_while_in_flight)
  have more: "refresh_posts (fst (run evs (snd (step ev s)))) = 0 \<and>
         isRefreshing (snd (run evs (snd (step ev s)))) \<and>
         awaiting (snd (run evs (snd (step ev s)))) = awaiting (snd (step ev s))"
    using Cons.IH [of "snd (step ev s)"] one Cons.prems by simp
  show ?case
    using one more by (simp add: split_def Let_def del: step.simps)
qed


subsection \<open>Single flight\<close>

text \<open>
  Claim C1. Let no renewal be in flight (\<open>isRefreshing\<close> is false) and let \<open>N \<ge> 1\<close> requests
  that have not been retried yet fail with status 401, one after the other with nothing
  in between. Then exactly one refresh call is made (by the first of them, whose handler
  is now the one suspended at the call, with its retry mark set), the other \<open>N - 1\<close> are
  put on the queue in their order of arrival and no caller is answered yet. After that,
  whatever else happens short of a settlement of the refresh call (further errors of any
  kind, responses, store actions), no further refresh call is made and the same single
  handler stays suspended.
\<close>

theorem single_flight:
  assumes "\<not> isRefreshing s" and "errs \<noteq> []"
    and "\<forall>err\<in>set errs. response_status err = Some 401 \<and> \<not> retry (config err)"
    and "\<forall>ev\<in>set evs. \<not> is_refresh_settled ev"
  shows "let (fx, s') = run (map ResponseError errs) s;
             (fx', s'') = run evs s'
         in refresh_posts fx = 1 \<and>
            enqueued fx = map config (tl errs) \<and>
            returned fx = [] \<and>
            isRefreshing s' \<and>
            awaiting s' = awaiting s @ [(config (hd errs))\<lparr>retry := True\<rparr>] \<and>
            failedQueue s' = failedQueue s @ map config (tl errs) \<and>
            refresh_posts fx' = 0 \<and>
            isRefreshing s'' \<and>
            awaiting s'' = awaiting s'"
proof -
  obtain err rest where errs: "errs = err # rest"
    using assms(2) by (cases errs) auto
  define s1 where "s1 = s\<lparr>isRefreshing := True, awaiting := awaiting s @ [(config err)\<lparr>retry := True\<rparr>]\<rparr>"
  have first: "step (ResponseError err) s = ([RefreshPost], s1)"
    using assms(1,3) by (simp add: errs s1_def start_renewal_when_idle del: step.simps)
  have rest: "run (map ResponseError rest) s1 =
      (map (\<lambda>err. Enqueued (config err)) rest, s1\<lparr>failedQueue := failedQueue s1 @ map config rest\<rparr>)"
    using assms(3) by (intro burst_while_refreshing) (simp_all add: errs s1_def)
  have burst: "run (map ResponseError errs) s =
      (RefreshPost # map (\<lambda>err. Enqueued (config err)) rest,
       s1\<lparr>failedQueue := failedQueue s1 @ map config rest\<rparr>)"
    by (simp add: errs first rest del: step.simps)
  have later: "refresh_posts (fst (run evs (s1\<lparr>failedQueue := failedQueue s1 @ map config rest\<rparr>))) = 0 \<and>
      isRefreshing (snd (run evs (s1\<lparr>failedQueue := failedQueue s1 @ map config rest\<rparr>))) \<and>
      awaiting (snd (run evs (s1\<lparr>failedQueue := failedQueue s1 @ map config rest\<rparr>))) =
        awaiting (s1\<lparr>failedQueue := failedQueue s1 @ map config rest\<rparr>)"
    using assms(4) by (intro run_while_in_flight) (simp_all add: s1_def)
  show ?thesis
    unfolding burst using later by (simp add: split_def errs s1_def)
qed

theorem single_flight_witness:
  "\<not> isRefreshing initial_state \<and>
   [unauthorized req_a, unauthorized req_b, unauthorized req_c] \<noteq> [] \<and>
   response_status (unauthorized req_a) = Some 401 \<and> \<not> retry (config (unauthorized req_a)) \<and>
   response_status (unauthorized req_b) = Some 401 \<and> \<not> retry (config (unauthorized req_b)) \<and>
   response_status (unauthorized req_c) = Some 401 \<and> \<not> retry (config (unauthorized req_c)) \<and>
   \<not> is_refresh_settled (ResponseError (unauthorized (req_a\<lparr>retry := True\<rparr>))) \<and>
   \<not> is_refresh_settled (ResponseError \<lparr> config = req_b, response_status = Some 500 \<rparr>) \<and>
   \<not> is_refresh_settled (ResponseError (unauthorized req_c)) \<and>
   (let (fx, s') = run (map ResponseError [unauthorized req_a, unauthorized req_b, unauthorized req_c])
                     initial_state;
        (fx', s'') = run [ResponseError (unauthorized (req_a\<lparr>retry := True\<rparr>)),
                          ResponseError \<lparr> config = req_b, response_status = Some 500 \<rparr>,
                          ResponseError (unauthorized req_c)] s'
    in refresh_posts fx = 1 \<and> enqueued fx = [req_b, req_c] \<and> returned fx = [] \<and>
       isRefreshing s' \<and> awaiting s' = [req_a\<lparr>retry := True\<rparr>] \<and>
       failedQueue s' = [req_b, req_c] \<and>
       refresh_posts fx' = 0 \<and> isRefreshing s'' \<and> awaiting s'' = [req_a\<lparr>retry := True\<rparr>])"
  using single_flight [of initial_state "[unauthorized req_a, unauthorized req_b, unauthorized req_c]"
      "[ResponseError (unauthorized (req_a\<lparr>retry := True\<rparr>)),
        ResponseError \<lparr> config = req_b, response_status = Some 500 \<rparr>,
        ResponseError (unauthorized req_c)]"]
  by (simp add: initial_state_def unauthorized_def req_a_def req_b_def req_c_def on_rejected_def
      Let_def)


subsection \<open>Order of the flush\<close>

text \<open>
  Claim C3. Let a renewal be in flight and let callers \<open>R1, ..., Rn\<close> be enqueued in this
  order (each by a 401 on a request not yet retried). Then the queue holds them in this
  order behind what it held before, and when the refresh call settles the entries are
  settled in exactly that order: all resolved with the new token when it succeeded, all
  rejected with the error when it failed (or when its body was \<open>null\<close>). The requests
  sent again after a success, and the rejections returned after a failure, follow the
  same order, behind the initiator's.
\<close>

theorem fifo_flush:
  assumes "isRefreshing s" and "n < length (awaiting s)"
    and "\<forall>err\<in>set errs. response_status err = Some 401 \<and> \<not> retry (config err)"
  shows "let s1 = snd (run (map ResponseError errs) s);
             q = failedQueue s @ map config errs
         in failedQueue s1 = q \<and>
            settlements (fst (step (RefreshSettled n (RefreshOk (Data token))) s1)) =
              map (\<lambda>r. (r, Resolve (if token = Undefined then Null else token))) q \<and>
            settlements (fst (step (RefreshSettled n (RefreshFail e)) s1)) =
              map (\<lambda>r. (r, Reject (AxiosErr e))) q \<and>
            settlements (fst (step (RefreshSettled n (RefreshOk NoData)) s1)) =
              map (\<lambda>r. (r, Reject TypeErr)) q \<and>
            map url (sent (fst (step (RefreshSettled n (RefreshOk (Data token))) s1))) =
              map url (awaiting s ! n # q) \<and>
            map fst (returned (fst (step (RefreshSettled n (RefreshFail e)) s1))) =
              awaiting s ! n # q"
proof -
  define s1 where "s1 = s\<lparr>failedQueue := failedQueue s @ map config errs\<rparr>"
  have burst: "run (map ResponseError errs) s = (map (\<lambda>err. Enqueued (config err)) errs, s1)"
    using assms(1,3) by (simp add: burst_while_refreshing s1_def)
  have n: "n < length (awaiting s1)"
    using assms(2) by (simp add: s1_def)
  have url_kept: "url (request_interceptor st (set_authorization t r)) = url r" for st t r
    by (simp add: request_interceptor_def set_authorization_def Let_def)
  note ok = refresh_success_step [OF n, of token]
  note ko = refresh_failure_step [OF n, of "RefreshFail e" e "AxiosErr e"]
  note nodata = refresh_failure_step [OF n, of "RefreshOk NoData" e TypeErr]
  have q: "failedQueue s1 = failedQueue s @ map config errs" and a: "awaiting s1 = awaiting s"
    by (simp_all add: s1_def)
  show ?thesis
    unfolding burst
    by (simp add: ok ko nodata Let_def q a url_kept comp_def del: step.simps)
qed

theorem fifo_flush_witness:
  "isRefreshing refreshing_state \<and> 0 < length (awaiting refreshing_state) \<and>
   response_status (unauthorized req_a) = Some 401 \<and> \<not> retry (config (unauthorized req_a)) \<and>
   response_status (unauthorized req_c) = Some 401 \<and> \<not> retry (config (unauthorized req_c)) \<and>
   (let s1 = snd (run (map ResponseError [unauthorized req_a, unauthorized req_c]) refreshing_state)
    in failedQueue s1 = [req_b, req_c, req_a, req_c] \<and>
       settlements (fst (step (RefreshSettled 0 (RefreshOk (Data (Str ''T2'')))) s1)) =
         [(req_b, Resolve (Str ''T2'')), (req_c, Resolve (Str ''T2'')),
          (req_a, Resolve (Str ''T2'')), (req_c, Resolve (Str ''T2''))] \<and>
       settlements (fst (step (RefreshSettled 0 (RefreshFail (unauthorized req_b))) s1)) =
         [(req_b, Reject (AxiosErr (unauthorized req_b))),
          (req_c, Reject (AxiosErr (unauthorized req_b))),
          (req_a, Reject (AxiosErr (unauthorized req_b))),
          (req_c, Reject (AxiosErr (unauthorized req_b)))] \<and>
       map url (sent (fst (step (RefreshSettled 0 (RefreshOk (Data (Str ''T2'')))) s1))) =
         [''/memories'', ''/apps'', ''/stats'', ''/memories'', ''/stats''])"
  using fifo_flush [of refreshing_state 0 "[unauthorized req_a, unauthorized req_c]" "Str ''T2''"
      "unauthorized req_b"]
  by (simp add: refreshing_state_def unauthorized_def req_a_def req_b_def req_c_def Let_def)


subsection \<open>The life of a queue entry\<close>

lemma refresh_settled_flushes:
  assumes "n < length (awaiting s)"
  shows "map fst (settlements (fst (step (RefreshSettled n res) s))) = failedQueue s \<and>
         enqueued (fst (step (RefreshSettled n res) s)) = [] \<and>
         failedQueue (snd (step (RefreshSettled n res) s)) = [] \<and>
         \<not> isRefreshing (snd (step (RefreshSettled n res) s)) \<and>
         awaiting (snd (step (RefreshSettled n res) s)) =
           take n (awaiting s) @ drop (Suc n) (awaiting s)"
proof (cases res)
  case (RefreshOk body)
  show ?thesis
  proof (cases body)
    case NoData
    show ?thesis
      unfolding RefreshOk NoData
      by (simp add: refresh_failure_step [OF assms, of "RefreshOk NoData" undefined TypeErr]
          Let_def comp_def del: step.simps)
  next
    case (Data token)
    show ?thesis
      unfolding RefreshOk Data
      by (simp add: refresh_success_step [OF assms] Let_def comp_def del: step.simps)
  qed
next
  case (RefreshFail e)
  show ?thesis
    unfolding RefreshFail
    by (simp add: refresh_failure_step [OF assms, of "RefreshFail e" e "AxiosErr e"]
        Let_def comp_def del: step.simps)
qed

lemma step_queue_balance:
  "map fst (settlements (fst (step ev s))) @ failedQueue (snd (step ev s)) =
   failedQueue s @ enqueued (fst (step ev s))"
proof (cases ev)
  case (RefreshSettled n res)
  show ?thesis
  proof (cases "n < length (awaiting s)")
    case True
    then show ?thesis
      unfolding RefreshSettled using refresh_settled_flushes [OF True, of res] by simp
  next
    case False
    then show ?thesis
      unfolding RefreshSettled by simp
  qed
qed (simp_all add: on_fulfilled_def on_rejected_def dispatch_def Let_def)

lemma run_queue_balance:
  "map fst (settlements (fst (run evs s))) @ failedQueue (snd (run evs s)) =
   failedQueue s @ enqueued (fst (run evs s))"
proof (induction evs arbitrary: s)
  case Nil
  show ?case by simp
next
  case (Cons ev evs)
  have "map fst (settlements (fst (run (ev # evs) s))) @ failedQueue (snd (run (ev # evs) s)) =
        map fst (settlements (fst (step ev s))) @
          (map fst (settlements (fst (run evs (snd (step ev s))))) @
           failedQueue (snd (run evs (snd (step ev s)))))"
    by (simp add: split_def Let_def del: step.simps)
  also have "\<dots> = map fst (settlements (fst (step ev s))) @
          (failedQueue (snd (step ev s)) @ enqueued (fst (run evs (snd (step ev s)))))"
    by (simp only: Cons.IH)
  also have "\<dots> = (failedQueue s @ enqueued (fst (step ev s))) @
          enqueued (fst (run evs (snd (step ev s))))"
    using step_queue_balance [of ev s] by simp
  also have "\<dots> = failedQueue s @ enqueued (fst (run (ev # evs) s))"
    by (simp add: split_def Let_def del: step.simps)
  finally show ?case .
qed

lemma step_coordinator_inv:
  assumes "coordinator_inv s"
  shows "coordinator_inv (snd (step ev s))"
proof (cases ev)
  case (RefreshSettled n res)
  show ?thesis
  proof (cases "n < length (awaiting s)")
    case True
    then have "isRefreshing s" and "length (awaiting s) = 1" and "n = 0"
      using assms by (auto simp add: coordinator_inv_def split: if_splits)
    then show ?thesis
      unfolding RefreshSettled
      using refresh_settled_flushes [OF True, of res]
      by (simp add: coordinator_inv_def del: step.simps)
  next
    case False
    then show ?thesis
      unfolding RefreshSettled using assms by simp
  qed
next
  case (ResponseError err)
  show ?thesis
    unfolding ResponseError using assms
    by (simp add: on_rejected_def coordinator_inv_def Let_def)
qed (use assms in \<open>simp_all add: on_fulfilled_def dispatch_def coordinator_inv_def\<close>)

lemma run_coordinator_inv:
  assumes "coordinator_inv s"
  shows "coordinator_inv (snd (run evs s))"
  using assms
proof (induction evs arbitrary: s)
  case Nil
  then show ?case by simp
next
  case (Cons ev evs)
  have "coordinator_inv (snd (run evs (snd (step ev s))))"
    using Cons.IH [of "snd (step ev s)"] step_coordinator_inv [OF Cons.prems, of ev] by simp
  then show ?case
    by (simp add: split_def Let_def del: step.simps)
qed

lemma initial_coordinator_inv: "coordinator_inv initial_state"
  by (simp add: coordinator_inv_def initial_state_def)

text \<open>
  Claim C9. In every state the client reaches from its initial state, by any sequence
  of events: the entries pushed so far are, in order, the entries settled so far followed
  by the entries still queued, so no entry is settled twice or lost, and each settlement
  is either a resolve or a reject; \<open>isRefreshing\<close> is set exactly while one handler is
  suspended at the refresh call, and the queue is empty while it is not. When the refresh
  call settles, in any of its ways, it settles exactly the queued entries, empties the
  queue and resets \<open>isRefreshing\<close>. And whenever \<open>isRefreshing\<close> is not set, every entry
  ever pushed has been settled, and a 401 on a request not yet retried makes a refresh
  call of its own, with that request as the only suspended handler and an empty queue.
\<close>

theorem queue_lifecycle:
  "let (fx, s) = run evs initial_state
   in enqueued fx = map fst (settlements fx) @ failedQueue s \<and>
      coordinator_inv s \<and>
      (n < length (awaiting s) \<longrightarrow>
         map fst (settlements (fst (step (RefreshSettled n res) s))) = failedQueue s \<and>
         failedQueue (snd (step (RefreshSettled n res) s)) = [] \<and>
         awaiting (snd (step (RefreshSettled n res) s)) = [] \<and>
         \<not> isRefreshing (snd (step (RefreshSettled n res) s))) \<and>
      (\<not> isRefreshing s \<and> response_status err = Some 401 \<and> \<not> retry (config err) \<longrightarrow>
         enqueued fx = map fst (settlements fx) \<and>
         step (ResponseError err) s =
           ([RefreshPost],
            s\<lparr>isRefreshing := True, awaiting := [(config err)\<lparr>retry := True\<rparr>]\<rparr>))"
proof -
  define fx where "fx = fst (run evs initial_state)"
  define s where "s = snd (run evs initial_state)"
  have inv: "coordinator_inv s"
    unfolding s_def by (rule run_coordinator_inv [OF initial_coordinator_inv])
  have balance: "enqueued fx = map fst (settlements fx) @ failedQueue s"
    using run_queue_balance [of evs initial_state] by (simp add: fx_def s_def initial_state_def)
  have settle: "map fst (settlements (fst (step (RefreshSettled n res) s))) = failedQueue s \<and>
         failedQueue (snd (step (RefreshSettled n res) s)) = [] \<and>
         awaiting (snd (step (RefreshSettled n res) s)) = [] \<and>
         \<not> isRefreshing (snd (step (RefreshSettled n res) s))" if n: "n < length (awaiting s)"
  proof -
    have "length (awaiting s) = 1" and "n = 0"
      using inv n by (auto simp add: coordinator_inv_def split: if_splits)
    then show ?thesis
      using refresh_settled_flushes [OF n, of res] by (simp del: step.simps)
  qed
  have fresh: "enqueued fx = map fst (settlements fx) \<and>
         step (ResponseError err) s =
           ([RefreshPost],
            s\<lparr>isRefreshing := True, awaiting := [(config err)\<lparr>retry := True\<rparr>]\<rparr>)"
    if idle: "\<not> isRefreshing s" and e: "response_status err = Some 401" "\<not> retry (config err)"
  proof -
    have empty: "awaiting s = []" "failedQueue s = []"
      using inv idle by (simp_all add: coordinator_inv_def)
    show ?thesis
      using balance start_renewal_when_idle [OF idle e] by (simp add: empty del: step.simps)
  qed
  show ?thesis
    using inv balance settle fresh
    by (simp add: split_def fx_def [symmetric] s_def [symmetric] del: step.simps)
qed

theorem queue_lifecycle_witness:
  "(let (fx, s) = run [ResponseError (unauthorized req_a), ResponseError (unauthorized req_b)]
                    initial_state
    in 0 < length (awaiting s) \<and> enqueued fx = [req_b] \<and> failedQueue s = [req_b] \<and>
       map fst (settlements (fst (step (RefreshSettled 0 (RefreshOk NoData)) s))) = [req_b] \<and>
       failedQueue (snd (step (RefreshSettled 0 (RefreshOk NoData)) s)) = [] \<and>
       \<not> isRefreshing (snd (step (RefreshSettled 0 (RefreshOk NoData)) s))) \<and>
   (let (fx, s) = run [ResponseError (unauthorized req_a), ResponseError (unauthorized req_b),
                       RefreshSettled 0 (RefreshOk (Data (Str ''T2'')))] initial_state
    in \<not> isRefreshing s \<and> response_status (unauthorized req_c) = Some 401 \<and>
       \<not> retry (config (unauthorized req_c)) \<and>
       enqueued fx = [req_b] \<and> map fst (settlements fx) = [req_b] \<and> failedQueue s = [] \<and>
       fst (step (ResponseError (unauthorized req_c)) s) = [RefreshPost] \<and>
       awaiting (snd (step (ResponseError (unauthorized req_c)) s)) = [req_c\<lparr>retry := True\<rparr>])"
  using queue_lifecycle [of "[ResponseError (unauthorized req_a), ResponseError (unauthorized req_b)]"
      0 "RefreshOk NoData" "unauthorized req_c"]
    queue_lifecycle [of "[ResponseError (unauthorized req_a), ResponseError (unauthorized req_b),
        RefreshSettled 0 (RefreshOk (Data (Str ''T2'')))]" 0 "RefreshOk NoData" "unauthorized req_c"]
  by (simp add: initial_state_def unauthorized_def req_a_def req_b_def req_c_def on_rejected_def
      on_refresh_settled_def dispatch_def dispatch_logoutUser_def processQueue_def apiClient_def
      Let_def)


subsection \<open>A queued request that is refused again\<close>

text \<open>
  Claim C2, at a concrete run. Request \<open>req_a\<close> gets a 401 and starts the renewal, request
  \<open>req_b\<close> gets a 401 and is queued, the renewal succeeds with token \<open>T2\<close>. Both are sent
  again; \<open>req_a\<close> carries the retry mark, \<open>req_b\<close> does not, since the queue branch never
  sets it. A second 401 on the request sent for \<open>req_b\<close> therefore makes a second
  refresh call (two in the whole run), while a second 401 on the request sent for
  \<open>req_a\<close> makes none.
\<close>

theorem queued_request_renews_again:
  "sent (fst (run [ResponseError (unauthorized req_a), ResponseError (unauthorized req_b),
                   RefreshSettled 0 (RefreshOk (Data (Str ''T2'')))] initial_state)) =
     [\<lparr> url = ''/memories'', headers = [''Authorization'' \<mapsto> ''Bearer T2''], retry = True \<rparr>,
      \<lparr> url = ''/apps'',
        headers = [''Content-Type'' \<mapsto> ''application/json'', ''Authorization'' \<mapsto> ''Bearer T2''],
        retry = False \<rparr>] \<and>
   fst (step
     (ResponseError (unauthorized
        \<lparr> url = ''/apps'',
          headers = [''Content-Type'' \<mapsto> ''application/json'', ''Authorization'' \<mapsto> ''Bearer T2''],
          retry = False \<rparr>))
     (snd (run [ResponseError (unauthorized req_a), ResponseError (unauthorized req_b),
                RefreshSettled 0 (RefreshOk (Data (Str ''T2'')))] initial_state))) = [RefreshPost] \<and>
   refresh_posts (fst (run
     [ResponseError (unauthorized req_a), ResponseError (unauthorized req_b),
      RefreshSettled 0 (RefreshOk (Data (Str ''T2''))),
      ResponseError (unauthorized
        \<lparr> url = ''/apps'',
          headers = [''Content-Type'' \<mapsto> ''application/json'', ''Authorization'' \<mapsto> ''Bearer T2''],
          retry = False \<rparr>)] initial_state)) = 2 \<and>
   refresh_posts (fst (step
     (ResponseError (unauthorized
        \<lparr> url = ''/memories'', headers = [''Authorization'' \<mapsto> ''Bearer T2''], retry = True \<rparr>))
     (snd (run [ResponseError (unauthorized req_a), ResponseError (unauthorized req_b),
                RefreshSettled 0 (RefreshOk (Data (Str ''T2'')))] initial_state)))) = 0"
  by (simp add: initial_state_def initialState_def unauthorized_def req_a_def req_b_def
      on_rejected_def on_refresh_settled_def dispatch_def processQueue_def apiClient_def
      request_interceptor_def selectAccessToken_def set_authorization_def bearer_def Let_def)

end
